theory Spec2Isabelle
  imports Complex_Main
begin

section \<open>Python string primitives used by Extractdata.py\<close>

text \<open>
  Text is modelled as \<open>string\<close>: a character is a code point below 256 (Latin-1), and
  every character class below is the class that Python's \<open>str\<close> methods and the
  \<open>re\<close> module use on these code points.
\<close>

definition nl :: char where
  "nl = CHR 0x0A"

text \<open>\<open>str.isspace\<close>, which \<open>str.split()\<close>, \<open>str.strip()\<close> and the pattern \<open>\s\<close> use.\<close>

definition py_isspace :: "char \<Rightarrow> bool" where
  "py_isspace c = (c \<in> set [CHR 0x09, CHR 0x0A, CHR 0x0B, CHR 0x0C, CHR 0x0D,
                               CHR 0x1C, CHR 0x1D, CHR 0x1E, CHR 0x1F, CHR 0x20,
                               CHR 0x85, CHR 0xA0])"

text \<open>C's \<open>isspace\<close>, which \<open>float()\<close> strips from both ends of its ASCII text.\<close>

definition c_isspace :: "char \<Rightarrow> bool" where
  "c_isspace c = (c \<in> set [CHR 0x09, CHR 0x0A, CHR 0x0B, CHR 0x0C, CHR 0x0D, CHR 0x20])"

definition is_digit :: "char \<Rightarrow> bool" where
  "is_digit c = (c \<in> set ''0123456789'')"

definition digit_val :: "char \<Rightarrow> int" where
  "digit_val c = of_char c - 48"

text \<open>The value of a digit string, most significant digit first.\<close>

definition digits_val :: "string \<Rightarrow> int" where
  "digits_val ds = foldl (\<lambda>n c. 10 * n + digit_val c) 0 ds"

text \<open>The letters with a lower-case form: A to Z, and U+00C0 to U+00DE without U+00D7.\<close>

definition upper_letters :: string where
  "upper_letters =
     ''ABCDEFGHIJKLMNOPQRSTUVWXYZ'' @
     [CHR 0xC0, CHR 0xC1, CHR 0xC2, CHR 0xC3, CHR 0xC4, CHR 0xC5, CHR 0xC6,
      CHR 0xC7, CHR 0xC8, CHR 0xC9, CHR 0xCA, CHR 0xCB, CHR 0xCC, CHR 0xCD,
      CHR 0xCE, CHR 0xCF, CHR 0xD0, CHR 0xD1, CHR 0xD2, CHR 0xD3, CHR 0xD4,
      CHR 0xD5, CHR 0xD6, CHR 0xD8, CHR 0xD9, CHR 0xDA, CHR 0xDB, CHR 0xDC,
      CHR 0xDD, CHR 0xDE]"

definition lower_letters :: string where
  "lower_letters =
     ''abcdefghijklmnopqrstuvwxyz'' @
     [CHR 0xE0, CHR 0xE1, CHR 0xE2, CHR 0xE3, CHR 0xE4, CHR 0xE5, CHR 0xE6,
      CHR 0xE7, CHR 0xE8, CHR 0xE9, CHR 0xEA, CHR 0xEB, CHR 0xEC, CHR 0xED,
      CHR 0xEE, CHR 0xEF, CHR 0xF0, CHR 0xF1, CHR 0xF2, CHR 0xF3, CHR 0xF4,
      CHR 0xF5, CHR 0xF6, CHR 0xF8, CHR 0xF9, CHR 0xFA, CHR 0xFB, CHR 0xFC,
      CHR 0xFD, CHR 0xFE]"

definition lower_char :: "char \<Rightarrow> char" where
  "lower_char c =
     (case map_of (zip upper_letters lower_letters) c of
        Some l \<Rightarrow> l
      | None \<Rightarrow> c)"

text \<open>\<open>s.lower()\<close>\<close>

definition py_lower :: "string \<Rightarrow> string" where
  "py_lower s = map lower_char s"

fun starts_with :: "string \<Rightarrow> string \<Rightarrow> bool" where
  "starts_with [] s = True"
| "starts_with (p # ps) [] = False"
| "starts_with (p # ps) (c # cs) = (p = c \<and> starts_with ps cs)"

text \<open>\<open>sub in s\<close> on strings: \<open>sub\<close> occurs in \<open>s\<close> as a contiguous substring.\<close>

fun py_in :: "string \<Rightarrow> string \<Rightarrow> bool" where
  "py_in sub [] = (sub = [])"
| "py_in sub (c # cs) = (starts_with sub (c # cs) \<or> py_in sub cs)"

text \<open>\<open>s.replace(old, new)\<close> for a one-character \<open>old\<close>.\<close>

definition py_replace :: "char \<Rightarrow> string \<Rightarrow> string \<Rightarrow> string" where
  "py_replace old new s = concat (map (\<lambda>c. if c = old then new else [c]) s)"

text \<open>\<open>s.split(sep)\<close> for a one-character separator: never empty, keeps empty fields.\<close>

fun py_split_on :: "char \<Rightarrow> string \<Rightarrow> string list" where
  "py_split_on sep [] = [[]]"
| "py_split_on sep (c # cs) =
     (if c = sep then [] # py_split_on sep cs
      else (case py_split_on sep cs of
              [] \<Rightarrow> [[c]]
            | w # ws \<Rightarrow> (c # w) # ws))"

text \<open>\<open>s.split()\<close>: the maximal runs of non-space characters, in order.\<close>

fun split_ws :: "string \<Rightarrow> string \<Rightarrow> string list" where
  "split_ws cur [] = (if cur = [] then [] else [cur])"
| "split_ws cur (c # cs) =
     (if py_isspace c then (if cur = [] then split_ws [] cs else cur # split_ws [] cs)
      else split_ws (cur @ [c]) cs)"

definition py_split :: "string \<Rightarrow> string list" where
  "py_split s = split_ws [] s"

text \<open>\<open>s.strip()\<close>\<close>

definition py_strip :: "string \<Rightarrow> string" where
  "py_strip s = rev (dropWhile py_isspace (rev (dropWhile py_isspace s)))"

section \<open>Python numbers\<close>

datatype py_error = ValueError | KeyError | TypeError | AttributeError

text \<open>
  A Python float is an IEEE 754 double: \<open>Finite q\<close> is the double whose value is the
  rational \<open>q\<close>, \<open>NegZero\<close> is \<open>-0.0\<close>.
\<close>

datatype pyfloat = Finite rat | NegZero | PosInf | NegInf | NaN

definition pow2 :: "int \<Rightarrow> rat" where
  "pow2 k = (if 0 \<le> k then 2 ^ nat k else 1 / 2 ^ nat (- k))"

text \<open>The number of binary digits of a positive integer.\<close>

function bit_length :: "int \<Rightarrow> int" where
  "bit_length n = (if n \<le> 0 then 0 else 1 + bit_length (n div 2))"
  by pat_completeness auto
termination
  by (relation "measure nat") auto

text \<open>For \<open>a > 0\<close>: the \<open>e\<close> with \<open>2 ^ e \<le> a < 2 ^ (e + 1)\<close>.\<close>

definition floor_log2 :: "rat \<Rightarrow> int" where
  "floor_log2 a =
     (case quotient_of a of
        (n, d) \<Rightarrow>
          (let k = bit_length n - bit_length d in if pow2 k \<le> a then k else k - 1))"

text \<open>Rounding to the nearest integer, a tie to the even one.\<close>

definition round_half_even :: "rat \<Rightarrow> int" where
  "round_half_even x =
     (let f = \<lfloor>x\<rfloor>; r = x - of_int f
      in if r < 1 / 2 then f
         else if 1 / 2 < r then f + 1
         else if even f then f else f + 1)"

text \<open>
  The double nearest to a rational \<open>a > 0\<close>, as a correctly rounding conversion gives
  it: 53 significant bits, the exponent at least that of the subnormal numbers, zero on
  underflow and infinity on overflow.
\<close>

definition round_positive :: "rat \<Rightarrow> pyfloat" where
  "round_positive a =
     (let e = max (floor_log2 a) (- 1022);
          ulp = pow2 (e - 52);
          m = round_half_even (a / ulp)
      in if m = 0 then Finite 0
         else if 1024 \<le> e \<or> (e = 1023 \<and> m = 9007199254740992) then PosInf
         else Finite (of_int m * ulp))"

fun negate :: "pyfloat \<Rightarrow> pyfloat" where
  "negate (Finite v) = (if v = 0 then NegZero else Finite (- v))"
| "negate NegZero = Finite 0"
| "negate PosInf = NegInf"
| "negate NegInf = PosInf"
| "negate NaN = NaN"

text \<open>The double nearest to a rational: what a decimal literal of that value denotes.\<close>

definition nearest_double :: "rat \<Rightarrow> pyfloat" where
  "nearest_double q =
     (if q = 0 then Finite 0
      else if 0 < q then round_positive q
      else negate (round_positive (- q)))"

definition pow10 :: "int \<Rightarrow> rat" where
  "pow10 e = (if 0 \<le> e then 10 ^ nat e else 1 / 10 ^ nat (- e))"

text \<open>
  \<open>float()\<close> accepts an underscore between two digits only; the underscores are taken out
  before the number is parsed. \<open>prev\<close> is the character before the current one.
\<close>

fun strip_underscores :: "char \<Rightarrow> string \<Rightarrow> string option" where
  "strip_underscores prev [] = (if prev = CHR ''_'' then None else Some [])"
| "strip_underscores prev (c # cs) =
     (if c = CHR ''_'' then
        (if is_digit prev then strip_underscores c cs else None)
      else if prev = CHR ''_'' \<and> \<not> is_digit c then None
      else map_option ((#) c) (strip_underscores c cs))"

text \<open>An optional sign: \<open>True\<close> for a minus.\<close>

fun take_sign :: "string \<Rightarrow> bool \<times> string" where
  "take_sign (c # cs) =
     (if c = CHR ''-'' then (True, cs) else if c = CHR ''+'' then (False, cs) else (False, c # cs))"
| "take_sign [] = (False, [])"

text \<open>The exponent part, after the mantissa: empty, or \<open>e\<close>, an optional sign and digits.\<close>

definition parse_exponent :: "string \<Rightarrow> int option" where
  "parse_exponent s =
     (case s of
        [] \<Rightarrow> Some 0
      | c # cs \<Rightarrow>
          if c = CHR ''e'' \<or> c = CHR ''E'' then
            (case take_sign cs of
               (neg, ds) \<Rightarrow>
                 if ds \<noteq> [] \<and> list_all is_digit ds
                 then Some (if neg then - digits_val ds else digits_val ds)
                 else None)
          else None)"

text \<open>
  An unsigned decimal: digits, an optional point and digits, at least one digit in all,
  and an optional exponent; nothing may follow.
\<close>

definition parse_decimal :: "string \<Rightarrow> rat option" where
  "parse_decimal s =
     (let ip = takeWhile is_digit s;
          r1 = dropWhile is_digit s;
          fp = (case r1 of [] \<Rightarrow> [] | c # t \<Rightarrow> if c = CHR ''.'' then takeWhile is_digit t else []);
          r2 = (case r1 of [] \<Rightarrow> [] | c # t \<Rightarrow> if c = CHR ''.'' then dropWhile is_digit t else r1)
      in if ip = [] \<and> fp = [] then None
         else (case parse_exponent r2 of
                 None \<Rightarrow> None
               | Some e \<Rightarrow> Some (of_int (digits_val (ip @ fp)) * pow10 (e - int (length fp)))))"

definition parse_signed :: "string \<Rightarrow> pyfloat option" where
  "parse_signed s =
     (case take_sign s of
        (neg, body) \<Rightarrow>
          if py_lower body = ''inf'' \<or> py_lower body = ''infinity''
          then Some (if neg then NegInf else PosInf)
          else if py_lower body = ''nan'' then Some NaN
          else map_option
                 (\<lambda>q. if neg then negate (nearest_double q) else nearest_double q)
                 (parse_decimal body))"

text \<open>
  Before it parses, \<open>float()\<close> turns a text that is not all ASCII into ASCII: a
  character below 127 stays, a space becomes a blank, and any other character becomes a
  question mark (which no number contains).
\<close>

definition to_ascii :: "string \<Rightarrow> string" where
  "to_ascii s =
     (if list_all (\<lambda>c. (of_char c :: nat) < 128) s then s
      else map (\<lambda>c. if (of_char c :: nat) < 127 then c
                    else if py_isspace c then CHR '' '' else CHR ''?'') s)"

text \<open>\<open>float(s)\<close> on a string: \<open>Inl ValueError\<close> where Python raises.\<close>

definition py_float :: "string \<Rightarrow> py_error + pyfloat" where
  "py_float s =
     (case (if CHR ''_'' \<in> set (to_ascii s) then strip_underscores (CHR 0x00) (to_ascii s)
            else Some (to_ascii s)) of
        None \<Rightarrow> Inl ValueError
      | Some t \<Rightarrow>
          (case parse_signed (rev (dropWhile c_isspace (rev (dropWhile c_isspace t)))) of
             None \<Rightarrow> Inl ValueError
           | Some v \<Rightarrow> Inr v))"

section \<open>Regular expressions as the \<open>re\<close> module matches them\<close>

text \<open>
  The patterns of the program use character classes, greedy quantifiers on a class,
  greedy optional parts, capture groups and the end anchor. \<open>re\<close> is a backtracking
  matcher: a pattern applied at a position has a list of possible ends, tried in a fixed
  order (greedy first), and the first that lets the rest of the pattern match is taken.
  \<open>rmatch\<close> computes that list, in that order.
\<close>

datatype cclass =
    Digit              \<comment> \<open>\<open>\d\<close>\<close>
  | Space              \<comment> \<open>\<open>\s\<close>\<close>
  | Lit char           \<comment> \<open>a literal character\<close>
  | LitI char          \<comment> \<open>a literal character under \<open>re.IGNORECASE\<close>\<close>
  | NotCh char         \<comment> \<open>\<open>[^c]\<close>\<close>
  | OneOf string       \<comment> \<open>\<open>[abc]\<close>\<close>

fun cmatch :: "cclass \<Rightarrow> char \<Rightarrow> bool" where
  "cmatch Digit x = is_digit x"
| "cmatch Space x = py_isspace x"
| "cmatch (Lit c) x = (x = c)"
| "cmatch (LitI c) x = (lower_char x = lower_char c)"
| "cmatch (NotCh c) x = (x \<noteq> c)"
| "cmatch (OneOf cs) x = (x \<in> set cs)"

datatype rx =
    Eps
  | Atom cclass
  | Cat rx rx
  | Opt rx             \<comment> \<open>\<open>r?\<close>\<close>
  | Star cclass        \<comment> \<open>\<open>c*\<close>\<close>
  | Plus cclass        \<comment> \<open>\<open>c+\<close>\<close>
  | Grp nat rx         \<comment> \<open>capture group number \<open>n\<close>\<close>
  | Eol                \<comment> \<open>\<open>$\<close>\<close>

type_synonym captures = "nat \<Rightarrow> string option"

text \<open>The inputs left after \<open>c*\<close>, longest run first.\<close>

fun star_run :: "cclass \<Rightarrow> string \<Rightarrow> string list" where
  "star_run c [] = [[]]"
| "star_run c (x # xs) = (if cmatch c x then star_run c xs @ [x # xs] else [x # xs])"

text \<open>
  \<open>rmatch r (s, g)\<close>: the states (input left, groups captured) in which a match of \<open>r\<close>
  at the head of \<open>s\<close> can end, in the order in which backtracking tries them. Without
  \<open>re.MULTILINE\<close>, \<open>$\<close> matches at the end of the text and before a newline that ends it.
\<close>

fun rmatch :: "rx \<Rightarrow> string \<times> captures \<Rightarrow> (string \<times> captures) list" where
  "rmatch Eps st = [st]"
| "rmatch (Atom c) (s, g) =
     (case s of [] \<Rightarrow> [] | x # xs \<Rightarrow> if cmatch c x then [(xs, g)] else [])"
| "rmatch (Cat a b) st = concat (map (rmatch b) (rmatch a st))"
| "rmatch (Opt a) st = rmatch a st @ [st]"
| "rmatch (Star c) (s, g) = map (\<lambda>s'. (s', g)) (star_run c s)"
| "rmatch (Plus c) (s, g) =
     (case s of
        [] \<Rightarrow> []
      | x # xs \<Rightarrow> if cmatch c x then map (\<lambda>s'. (s', g)) (star_run c xs) else [])"
| "rmatch (Grp n a) (s, g) =
     map (\<lambda>(s', g'). (s', g'(n \<mapsto> take (length s - length s') s))) (rmatch a (s, g))"
| "rmatch Eol (s, g) = (if s = [] \<or> s = [nl] then [(s, g)] else [])"

text \<open>\<open>re.search(r, s)\<close>: the groups of the first match at the leftmost position that has one.\<close>

fun re_search :: "rx \<Rightarrow> string \<Rightarrow> captures option" where
  "re_search r [] = (case rmatch r ([], Map.empty) of [] \<Rightarrow> None | (s', g) # _ \<Rightarrow> Some g)"
| "re_search r (c # cs) =
     (case rmatch r (c # cs, Map.empty) of
        [] \<Rightarrow> re_search r cs
      | (s', g) # _ \<Rightarrow> Some g)"

definition seq :: "rx list \<Rightarrow> rx" where
  "seq rs = foldr Cat rs Eps"

text \<open>\<open>(\d+\.?\d*)\<close>, as group 1\<close>

definition number_group :: rx where
  "number_group = Grp 1 (seq [Plus Digit, Opt (Atom (Lit (CHR ''.''))), Star Digit])"

text \<open>\<open>H\.P\.L\.C\<close> under \<open>re.IGNORECASE\<close>\<close>

definition hplc :: rx where
  "hplc = seq (map Atom [LitI (CHR ''H''), Lit (CHR ''.''), LitI (CHR ''P''), Lit (CHR ''.''),
                         LitI (CHR ''L''), Lit (CHR ''.''), LitI (CHR ''C'')])"

section \<open>\<open>extract_value\<close>\<close>

text \<open>The four patterns of the HbA1c branch, in the order of the source list.\<close>

definition hba1c_patterns :: "rx list" where
  "hba1c_patterns =
     [seq [number_group, Star Space, Atom (Lit (CHR ''%''))],
      seq [hplc, Star Space, number_group],
      seq [number_group, Star Space, hplc],
      seq [number_group, Star Space, Eol]]"

text \<open>
  \<open>for pattern in patterns: match = re.search(...); if match: return float(match.group(1))\<close>.
  \<open>None\<close>: the loop ended without a match and the function goes on; \<open>Some r\<close>: it returned
  (or raised) at the first pattern that matched.
\<close>

fun try_patterns_hba1c :: "rx list \<Rightarrow> string \<Rightarrow> (py_error + pyfloat) option" where
  "try_patterns_hba1c [] s = None"
| "try_patterns_hba1c (p # ps) s =
     (case re_search p s of
        None \<Rightarrow> try_patterns_hba1c ps s
      | Some g \<Rightarrow> Some (case g 1 of None \<Rightarrow> Inl TypeError | Some t \<Rightarrow> py_float t))"

text \<open>
  \<open>for word in reversed(words): try: return float(word) except ValueError: continue\<close>,
  on the list already reversed; falling out of the loop reaches \<open>return None\<close>.
\<close>

fun scan_words :: "string list \<Rightarrow> py_error + pyfloat option" where
  "scan_words [] = Inr None"
| "scan_words (w # ws) =
     (case py_float w of
        Inr v \<Rightarrow> Inr (Some v)
      | Inl e \<Rightarrow> if e = ValueError then scan_words ws else Inl e)"

definition clean :: "string \<Rightarrow> string" where
  "clean line = py_replace (CHR ''>'') [] (py_replace (CHR ''<'') [] (py_replace (CHR '','') [] line))"

text \<open>The body of the outer \<open>try\<close>: \<open>Inl\<close> is an exception that leaves it.\<close>

definition extract_value_body :: "string \<Rightarrow> string \<Rightarrow> py_error + pyfloat option" where
  "extract_value_body line biomarker_name =
     (let clean_line = clean line in
      case (if py_in ''hba1c'' (py_lower biomarker_name)
            then try_patterns_hba1c hba1c_patterns clean_line else None) of
        Some (Inl e) \<Rightarrow> Inl e
      | Some (Inr v) \<Rightarrow> Inr (Some v)
      | None \<Rightarrow> scan_words (rev (py_split clean_line)))"

text \<open>\<open>except Exception\<close> prints a diagnostic and falls through to \<open>return None\<close>.\<close>

definition extract_value :: "string \<Rightarrow> string \<Rightarrow> pyfloat option" where
  "extract_value line biomarker_name =
     (case extract_value_body line biomarker_name of Inl e \<Rightarrow> None | Inr r \<Rightarrow> r)"

section \<open>\<open>extract_patient_info\<close>\<close>

record patient_info =
  name :: string
  age :: "int option"
  gender :: "string option"
  date :: string

text \<open>\<open>NAME\s*:?\s*([^(]+)(?:\((\d+)Y/([MF])\))?\<close>, matched without \<open>re.IGNORECASE\<close>\<close>

definition name_pattern :: rx where
  "name_pattern =
     seq [Atom (Lit (CHR ''N'')), Atom (Lit (CHR ''A'')), Atom (Lit (CHR ''M'')), Atom (Lit (CHR ''E'')),
          Star Space, Opt (Atom (Lit (CHR '':''))), Star Space,
          Grp 1 (Plus (NotCh (CHR ''(''))),
          Opt (seq [Atom (Lit (CHR ''('')), Grp 2 (Plus Digit), Atom (Lit (CHR ''Y'')),
                    Atom (Lit (CHR ''/'')), Grp 3 (Atom (OneOf ''MF'')), Atom (Lit (CHR '')''))])]"

text \<open>
  \<open>int(s)\<close> on the digits that group 2 captured. The interpreter refuses a text of more
  than 4300 digits (its default limit) with \<open>ValueError\<close>.
\<close>

definition py_int :: "string \<Rightarrow> py_error + int" where
  "py_int s =
     (if s \<noteq> [] \<and> list_all is_digit s \<and> length s \<le> 4300 then Inr (digits_val s)
      else Inl ValueError)"

text \<open>
  The dictionary built from a match. A group that did not take part is \<open>None\<close>, and so is
  falsy; so is an empty capture.
\<close>

definition info_of_match :: "captures \<Rightarrow> string \<Rightarrow> py_error + patient_info" where
  "info_of_match g today =
     (case g 1 of
        None \<Rightarrow> Inl AttributeError
      | Some n \<Rightarrow>
          (case (case g 2 of
                   None \<Rightarrow> Inr None
                 | Some a \<Rightarrow> if a = [] then Inr None else map_sum id Some (py_int a)) of
             Inl e \<Rightarrow> Inl e
           | Inr a \<Rightarrow>
               Inr \<lparr>name = ''Dr. '' @ py_strip n,
                    age = a,
                    gender = (case g 3 of None \<Rightarrow> None | Some x \<Rightarrow> if x = [] then None else Some x),
                    date = today\<rparr>))"

definition unknown_patient :: "string \<Rightarrow> patient_info" where
  "unknown_patient today = \<lparr>name = ''Unknown'', age = None, gender = None, date = today\<rparr>"

text \<open>
  The loop over the lines; \<open>today\<close> is \<open>datetime.now().strftime("%Y-%m-%d")\<close> at the
  moment the function returns.
\<close>

fun scan_patient_lines :: "string list \<Rightarrow> string \<Rightarrow> py_error + patient_info" where
  "scan_patient_lines [] today = Inr (unknown_patient today)"
| "scan_patient_lines (line # rest) today =
     (if py_in ''NAME'' line then
        (case re_search name_pattern line of
           Some g \<Rightarrow> info_of_match g today
         | None \<Rightarrow> scan_patient_lines rest today)
      else scan_patient_lines rest today)"

definition extract_patient_info :: "string \<Rightarrow> string \<Rightarrow> py_error + patient_info" where
  "extract_patient_info text today = scan_patient_lines (py_split_on nl text) today"

section \<open>\<open>get_reference_ranges\<close>\<close>

datatype pynum = PyInt int | PyFloat rat

record ref_range =
  unit_name :: string           \<comment> \<open>key \<open>"unit"\<close>\<close>
  reference_range :: string
  low :: pynum
  high :: pynum

definition get_reference_ranges :: "(string \<times> ref_range) list" where
  "get_reference_ranges =
     [(''Vitamin D'',
         \<lparr>unit_name = ''ng/mL'', reference_range = ''30-100'', low = PyInt 30, high = PyInt 100\<rparr>),
      (''Vitamin B12'',
         \<lparr>unit_name = ''pg/mL'', reference_range = ''211-911'', low = PyInt 211, high = PyInt 911\<rparr>),
      (''Total Cholesterol'',
         \<lparr>unit_name = ''mg/dL'', reference_range = ''<200'', low = PyInt 0, high = PyInt 200\<rparr>),
      (''LDL'',
         \<lparr>unit_name = ''mg/dL'', reference_range = ''<100'', low = PyInt 0, high = PyInt 100\<rparr>),
      (''HDL'',
         \<lparr>unit_name = ''mg/dL'', reference_range = ''>40'', low = PyInt 40, high = PyInt 100\<rparr>),
      (''Triglycerides'',
         \<lparr>unit_name = ''mg/dL'', reference_range = ''<150'', low = PyInt 0, high = PyInt 150\<rparr>),
      (''Creatinine'',
         \<lparr>unit_name = ''mg/dL'', reference_range = ''0.7-1.3'',
          low = PyFloat (7 / 10), high = PyFloat (13 / 10)\<rparr>),
      (''HbA1c'',
         \<lparr>unit_name = ''%'', reference_range = ''<5.7'', low = PyInt 0, high = PyFloat (57 / 10)\<rparr>)]"

section \<open>\<open>process_pdf_to_json\<close>\<close>

text \<open>
  The \<open>biomarkers\<close> dictionary, in insertion order: each name with its search patterns
  and the value found so far (key \<open>"value"\<close>).
\<close>

record biomarker_info =
  patterns :: "string list"
  val :: "pyfloat option"

definition biomarkers_init :: "(string \<times> biomarker_info) list" where
  "biomarkers_init =
     [(''Total Cholesterol'', \<lparr>patterns = [''TOTAL CHOLESTEROL'', ''CHOLESTEROL - TOTAL''], val = None\<rparr>),
      (''LDL'', \<lparr>patterns = [''LDL CHOLESTEROL'', ''LDL-C''], val = None\<rparr>),
      (''HDL'', \<lparr>patterns = [''HDL CHOLESTEROL'', ''HDL-C''], val = None\<rparr>),
      (''Triglycerides'', \<lparr>patterns = [''TRIGLYCERIDES'', ''TRIG''], val = None\<rparr>),
      (''Creatinine'', \<lparr>patterns = [''CREATININE'', ''CREATININE - SERUM''], val = None\<rparr>),
      (''Vitamin D'', \<lparr>patterns = [''VITAMIN D'', ''25-OH VITAMIN D''], val = None\<rparr>),
      (''Vitamin B12'', \<lparr>patterns = [''VITAMIN B-12'', ''VITAMIN B12'', ''B-12''], val = None\<rparr>),
      (''HbA1c'', \<lparr>patterns = [''HbA1c'', ''HbA1c - (HPLC)'', ''GLYCATED HEMOGLOBIN''], val = None\<rparr>)]"

text \<open>
  \<open>for offset in range(1, 3)\<close>: the first line below line \<open>idx\<close>, among the offsets given
  and inside the text, from which a value is extracted.
\<close>

fun lookahead :: "string list \<Rightarrow> nat \<Rightarrow> string \<Rightarrow> nat list \<Rightarrow> pyfloat option" where
  "lookahead lines idx biomarker [] = None"
| "lookahead lines idx biomarker (offset # offsets) =
     (if idx + offset < length lines then
        (case extract_value (lines ! (idx + offset)) biomarker of
           Some v \<Rightarrow> Some v
         | None \<Rightarrow> lookahead lines idx biomarker offsets)
      else lookahead lines idx biomarker offsets)"

text \<open>
  \<open>for pattern in info["patterns"]\<close> on line \<open>idx\<close>, for a biomarker that has no value
  yet: the value stored, if any. The loop is left at the first pattern that gives one.
\<close>

fun try_patterns :: "string list \<Rightarrow> nat \<Rightarrow> string \<Rightarrow> string list \<Rightarrow> pyfloat option" where
  "try_patterns lines idx biomarker [] = None"
| "try_patterns lines idx biomarker (pattern # rest) =
     (if py_in (py_lower pattern) (py_lower (lines ! idx)) then
        (if biomarker = ''HbA1c'' then
           (case lookahead lines idx biomarker [1 ..< 3] of
              Some v \<Rightarrow> Some v
            | None \<Rightarrow> try_patterns lines idx biomarker rest)
         else
           (case extract_value (lines ! idx) biomarker of
              Some v \<Rightarrow> Some v
            | None \<Rightarrow> try_patterns lines idx biomarker rest))
      else try_patterns lines idx biomarker rest)"

text \<open>One biomarker on one line: \<open>if info["value"] is None: ...\<close>\<close>

definition process_biomarker ::
  "string list \<Rightarrow> nat \<Rightarrow> string \<times> biomarker_info \<Rightarrow> string \<times> biomarker_info" where
  "process_biomarker lines idx entry =
     (case entry of
        (biomarker, info) \<Rightarrow>
          if val info = None
          then (biomarker, info\<lparr>val := try_patterns lines idx biomarker (patterns info)\<rparr>)
          else (biomarker, info))"

text \<open>The body of \<open>for idx, line in enumerate(lines)\<close>: every biomarker in turn.\<close>

definition process_line ::
  "string list \<Rightarrow> nat \<Rightarrow> (string \<times> biomarker_info) list \<Rightarrow> (string \<times> biomarker_info) list" where
  "process_line lines idx biomarkers = map (process_biomarker lines idx) biomarkers"

definition scan_lines ::
  "string list \<Rightarrow> (string \<times> biomarker_info) list \<Rightarrow> (string \<times> biomarker_info) list" where
  "scan_lines lines biomarkers = fold (process_line lines) [0 ..< length lines] biomarkers"

text \<open>The value a dictionary of biomarkers holds for a name.\<close>

definition value_of :: "(string \<times> biomarker_info) list \<Rightarrow> string \<Rightarrow> pyfloat option" where
  "value_of biomarkers b = (case map_of biomarkers b of None \<Rightarrow> None | Some info \<Rightarrow> val info)"

text \<open>An entry of \<open>biomarkers_data\<close>: \<open>{"value": ..., **reference_ranges[biomarker]}\<close>\<close>

record biomarker_entry = ref_range +
  entry_value :: pyfloat        \<comment> \<open>key \<open>"value"\<close>\<close>

text \<open>
  The loop that fills \<open>biomarkers_data\<close>; \<open>reference_ranges[biomarker]\<close> raises
  \<open>KeyError\<close> for a name the table does not have.
\<close>

fun build_biomarkers_data ::
  "(string \<times> ref_range) list \<Rightarrow> (string \<times> biomarker_info) list \<Rightarrow>
   (string \<rightharpoonup> biomarker_entry) \<Rightarrow> py_error + (string \<rightharpoonup> biomarker_entry)" where
  "build_biomarkers_data ranges [] acc = Inr acc"
| "build_biomarkers_data ranges ((biomarker, info) # rest) acc =
     (case val info of
        None \<Rightarrow> build_biomarkers_data ranges rest acc
      | Some v \<Rightarrow>
          (case map_of ranges biomarker of
             None \<Rightarrow> Inl KeyError
           | Some r \<Rightarrow>
               build_biomarkers_data ranges rest
                 (acc(biomarker \<mapsto>
                    \<lparr>unit_name = unit_name r, reference_range = reference_range r,
                     low = low r, high = high r, entry_value = v\<rparr>))))"

record report_info =
  pdf_filename :: string
  processed_date :: string

record report =
  patient :: patient_info
  biomarkers :: "string \<rightharpoonup> biomarker_entry"
  report_info :: report_info

text \<open>
  \<open>json_data\<close> as \<open>process_pdf_to_json\<close> builds it from the text of the pages.
  \<open>today\<close> and \<open>now\<close> are the clock readings formatted as the source formats them,
  \<open>pdf_name\<close> is \<open>os.path.basename(pdf_path)\<close>. Reading the PDF and writing the
  file are outside this model.
\<close>

definition assemble_report ::
  "string \<Rightarrow> string \<Rightarrow> string \<Rightarrow> string \<Rightarrow> py_error + report" where
  "assemble_report full_text today now pdf_name =
     (case extract_patient_info full_text today of
        Inl e \<Rightarrow> Inl e
      | Inr patient_info \<Rightarrow>
          (case build_biomarkers_data get_reference_ranges
                  (scan_lines (py_split_on nl full_text) biomarkers_init) Map.empty of
             Inl e \<Rightarrow> Inl e
           | Inr biomarkers_data \<Rightarrow>
               Inr \<lparr>patient = patient_info,
                    biomarkers = biomarkers_data,
                    report_info = \<lparr>pdf_filename = pdf_name, processed_date = now\<rparr>\<rparr>))"

section \<open>Predicates used in the proofs\<close>

text \<open>The texts that \<open>\d+\.?\d*\<close> matches: digits, an optional point, digits.\<close>

definition decimal_shape :: "string \<Rightarrow> bool" where
  "decimal_shape t =
     (\<exists>d1 dot d2. t = d1 @ dot @ d2 \<and> d1 \<noteq> [] \<and> list_all is_digit d1 \<and>
                   (dot = [] \<or> dot = ''.'') \<and> list_all is_digit d2)"

text \<open>A pattern without capture groups.\<close>

fun no_groups :: "rx \<Rightarrow> bool" where
  "no_groups (Cat a b) = (no_groups a \<and> no_groups b)"
| "no_groups (Opt a) = no_groups a"
| "no_groups (Grp n a) = False"
| "no_groups r = True"

section \<open>Properties of \<open>extract_value\<close>\<close>

lemma clean_filter:
  "clean line = filter (\<lambda>c. c \<notin> {CHR '','', CHR ''<'', CHR ''>''}) line"
  by (induction line) (auto simp: clean_def py_replace_def)

lemma py_float_error: "py_float w = Inl e \<Longrightarrow> e = ValueError"
  by (auto simp: py_float_def split: option.splits if_splits)

lemma scan_words_find:
  "scan_words ws =
     Inr (case find (\<lambda>w. py_float w \<noteq> Inl ValueError) ws of
            None \<Rightarrow> None
          | Some w \<Rightarrow> (case py_float w of Inr v \<Rightarrow> Some v | Inl e \<Rightarrow> None))"
proof (induction ws)
  case Nil
  show ?case by simp
next
  case (Cons w ws)
  show ?case
  proof (cases "py_float w")
    case (Inl e)
    then have "e = ValueError" by (rule py_float_error)
    with Inl Cons show ?thesis by simp
  next
    case (Inr v)
    then show ?thesis by simp
  qed
qed

text \<open>
  C9. The line enters \<open>extract_value\<close> only through \<open>clean_line\<close>, which is the line
  without its commas and inequality signs: two lines that differ only in such characters
  give the same result, and \<open>"1,234 mg/dL"\<close> and \<open>"1234 mg/dL"\<close> both give 1234 for
  Creatinine.
\<close>

theorem extract_value_cleaning_invariant:
  "(filter (\<lambda>c. c \<notin> {CHR '','', CHR ''<'', CHR ''>''}) line1 =
    filter (\<lambda>c. c \<notin> {CHR '','', CHR ''<'', CHR ''>''}) line2
      \<longrightarrow> extract_value line1 b = extract_value line2 b) \<and>
   extract_value ''1,234 mg/dL'' ''Creatinine'' = Some (Finite 1234) \<and>
   extract_value ''1234 mg/dL'' ''Creatinine'' = Some (Finite 1234)"
proof (intro conjI impI)
  assume "filter (\<lambda>c. c \<notin> {CHR '','', CHR ''<'', CHR ''>''}) line1 =
          filter (\<lambda>c. c \<notin> {CHR '','', CHR ''<'', CHR ''>''}) line2"
  then have "clean line1 = clean line2" by (simp only: clean_filter)
  then show "extract_value line1 b = extract_value line2 b"
    by (simp add: extract_value_def extract_value_body_def)
next
  show "extract_value ''1,234 mg/dL'' ''Creatinine'' = Some (Finite 1234)" by code_simp
next
  show "extract_value ''1234 mg/dL'' ''Creatinine'' = Some (Finite 1234)" by code_simp
qed

theorem extract_value_cleaning_invariant_witness:
  "filter (\<lambda>c. c \<notin> {CHR '','', CHR ''<'', CHR ''>''}) ''<5.7 %'' =
   filter (\<lambda>c. c \<notin> {CHR '','', CHR ''<'', CHR ''>''}) ''5,.7> %'' \<and>
   extract_value ''<5.7 %'' ''HbA1c'' = extract_value ''5,.7> %'' ''HbA1c''"
  using extract_value_cleaning_invariant [of "''<5.7 %''" "''5,.7> %''" "''HbA1c''"] by simp

text \<open>
  C3. For a biomarker name that does not contain "hba1c" in any case, \<open>extract_value\<close>
  returns the value of the rightmost whitespace-delimited token of the cleaned line that
  \<open>float\<close> accepts, and \<open>None\<close> when it accepts no token. The tokens are those of
  \<open>str.split()\<close>, which separates at every space character, the no-break space and
  the next-line character among them.
\<close>

theorem generic_policy_rightmost_number:
  assumes "\<not> py_in ''hba1c'' (py_lower biomarker_name)"
  shows "extract_value line biomarker_name =
           (case find (\<lambda>w. py_float w \<noteq> Inl ValueError) (rev (py_split (clean line))) of
              None \<Rightarrow> None
            | Some w \<Rightarrow> (case py_float w of Inr v \<Rightarrow> Some v | Inl e \<Rightarrow> None))"
  using assms by (simp add: extract_value_def extract_value_body_def scan_words_find)

theorem generic_policy_rightmost_number_witness:
  "\<not> py_in ''hba1c'' (py_lower ''Creatinine'') \<and>
   extract_value (''Creatinine'' @ [CHR 0xA0] @ ''0.9 mg/dL 0.7-1.3'') ''Creatinine'' =
     Some (nearest_double (9 / 10))"
proof -
  have h: "\<not> py_in ''hba1c'' (py_lower ''Creatinine'')" by code_simp
  have "(case find (\<lambda>w. py_float w \<noteq> Inl ValueError)
                (rev (py_split (clean (''Creatinine'' @ [CHR 0xA0] @ ''0.9 mg/dL 0.7-1.3'')))) of
           None \<Rightarrow> None
         | Some w \<Rightarrow> (case py_float w of Inr v \<Rightarrow> Some v | Inl e \<Rightarrow> None)) =
        Some (nearest_double (9 / 10))"
    by code_simp
  with h generic_policy_rightmost_number
    [OF h, of "''Creatinine'' @ [CHR 0xA0] @ ''0.9 mg/dL 0.7-1.3''"]
  show ?thesis by simp
qed

text \<open>
  C2. The source announces the token scan as the policy "for other biomarkers", but the
  HbA1c branch has no \<open>return\<close> after its loop: on a line that none of the four patterns
  matches, control reaches the token scan. For HbA1c the line \<open>"6.1 mg"\<close> matches no
  pattern and still yields 6.1.
\<close>

theorem hba1c_falls_through_to_token_scan:
  "py_in ''hba1c'' (py_lower ''HbA1c'') \<and>
   try_patterns_hba1c hba1c_patterns (clean ''6.1 mg'') = None \<and>
   extract_value ''6.1 mg'' ''HbA1c'' = Some (nearest_double (61 / 10))"
  by code_simp

text \<open>
  C10. Through the same fall-through, \<open>extract_value\<close> for HbA1c returns values that no
  pattern of the shape digits, optional point, digits captured: \<open>"-5 mg"\<close> yields -5 and
  \<open>"1e3 mg"\<close> yields 1000.
\<close>

theorem hba1c_negative_value:
  "py_in ''hba1c'' (py_lower ''HbA1c'') \<and>
   try_patterns_hba1c hba1c_patterns (clean ''-5 mg'') = None \<and>
   extract_value ''-5 mg'' ''HbA1c'' = Some (Finite (- 5)) \<and>
   extract_value ''1e3 mg'' ''HbA1c'' = Some (Finite 1000)"
  by code_simp

section \<open>What the patterns capture\<close>

lemma star_run_shape:
  "s' \<in> set (star_run c s) \<Longrightarrow> \<exists>pre. s = pre @ s' \<and> list_all (cmatch c) pre"
proof (induction s)
  case Nil
  then show ?case by simp
next
  case (Cons x xs)
  show ?case
  proof (cases "s' = x # xs")
    case True
    then show ?thesis by simp
  next
    case False
    with Cons.prems have x: "cmatch c x" and "s' \<in> set (star_run c xs)"
      by (auto split: if_splits)
    with Cons.IH obtain pre where "xs = pre @ s'" "list_all (cmatch c) pre" by blast
    with x have "x # xs = (x # pre) @ s' \<and> list_all (cmatch c) (x # pre)" by simp
    then show ?thesis by blast
  qed
qed

lemma rmatch_no_groups:
  "no_groups r \<Longrightarrow> (s', g') \<in> set (rmatch r (s, g)) \<Longrightarrow> g' = g"
proof (induction r arbitrary: s g s' g')
  case (Cat a b)
  from Cat.prems obtain s1 g1 where
    "(s1, g1) \<in> set (rmatch a (s, g))" "(s', g') \<in> set (rmatch b (s1, g1))"
    by auto
  with Cat.IH Cat.prems(1) show ?case by force
next
  case (Opt a)
  then show ?case by auto
qed (auto split: list.splits if_splits)

lemma rmatch_Cat:
  "(s', g') \<in> set (rmatch (Cat a b) st) \<longleftrightarrow>
     (\<exists>s1 g1. (s1, g1) \<in> set (rmatch a st) \<and> (s', g') \<in> set (rmatch b (s1, g1)))"
  by auto

lemma number_body_shape:
  assumes "(s', g') \<in> set (rmatch (seq [Plus Digit, Opt (Atom (Lit (CHR ''.''))), Star Digit]) (s, g))"
  shows "g' = g \<and> (\<exists>t. decimal_shape t \<and> s = t @ s')"
proof -
  from assms obtain s1 g1 s2 g2 where
    a: "(s1, g1) \<in> set (rmatch (Plus Digit) (s, g))"
    and b: "(s2, g2) \<in> set (rmatch (Opt (Atom (Lit (CHR ''.'')))) (s1, g1))"
    and c: "(s', g') \<in> set (rmatch (Star Digit) (s2, g2))"
    unfolding seq_def by (auto simp del: rmatch.simps simp add: rmatch_Cat rmatch.simps(1))
  from a obtain x xs where s: "s = x # xs" and x: "is_digit x"
    and s1: "s1 \<in> set (star_run Digit xs)" and g1: "g1 = g"
    by (cases s) (auto split: if_splits)
  from star_run_shape [OF s1] obtain p1 where p1: "xs = p1 @ s1" "list_all is_digit p1"
    by (auto simp: list_all_iff)
  from b have g2: "g2 = g1" and dot: "s1 = CHR ''.'' # s2 \<or> s1 = s2"
    by (auto split: list.splits if_splits)
  from c have g': "g' = g2" and "s' \<in> set (star_run Digit s2)" by auto
  from star_run_shape [OF this(2)] obtain p2 where p2: "s2 = p2 @ s'" "list_all is_digit p2"
    by (auto simp: list_all_iff)
  from dot have "\<exists>d. (d = [] \<or> d = ''.'') \<and> s1 = d @ s2"
  proof (elim disjE)
    assume "s1 = CHR ''.'' # s2"
    then show ?thesis by (intro exI [of _ "''.''"]) simp
  next
    assume "s1 = s2"
    then show ?thesis by (intro exI [of _ "[]"]) simp
  qed
  then obtain d where d: "d = [] \<or> d = ''.''" and s1': "s1 = d @ s2" by blast
  have "x # p1 \<noteq> [] \<and> list_all is_digit (x # p1) \<and> (d = [] \<or> d = ''.'') \<and>
        list_all is_digit p2"
    using x p1 p2 d by simp
  then have "decimal_shape ((x # p1) @ d @ p2)"
    unfolding decimal_shape_def by (intro exI [of _ "x # p1"] exI [of _ d] exI [of _ p2]) simp
  moreover have "s = ((x # p1) @ d @ p2) @ s'"
    using s p1 s1' p2 by simp
  ultimately show ?thesis using g1 g2 g' by blast
qed

lemma number_group_shape:
  assumes "(s', g') \<in> set (rmatch number_group (s, g))"
  shows "\<exists>t. decimal_shape t \<and> g' 1 = Some t"
proof -
  from assms obtain g0 where
    m: "(s', g0) \<in> set (rmatch (seq [Plus Digit, Opt (Atom (Lit (CHR ''.''))), Star Digit]) (s, g))"
    and g': "g' = g0(1 \<mapsto> take (length s - length s') s)"
    unfolding number_group_def by (auto simp del: rmatch.simps simp add: rmatch.simps(7))
  from number_body_shape [OF m] obtain t where "decimal_shape t" "s = t @ s'" by blast
  with g' show ?thesis by auto
qed

lemma hba1c_patterns_capture:
  assumes "p \<in> set hba1c_patterns" and "(s', g') \<in> set (rmatch p (s, g))"
  shows "\<exists>t. decimal_shape t \<and> g' 1 = Some t"
proof -
  have first: "\<exists>t. decimal_shape t \<and> g' 1 = Some t"
    if "(s', g') \<in> set (rmatch (Cat number_group r) (s, g))" "no_groups r" for r
  proof -
    from that(1) obtain s1 g1 where
      "(s1, g1) \<in> set (rmatch number_group (s, g))" "(s', g') \<in> set (rmatch r (s1, g1))"
      unfolding rmatch_Cat by blast
    with number_group_shape rmatch_no_groups [OF that(2)] show ?thesis by blast
  qed
  have last: "\<exists>t. decimal_shape t \<and> g' 1 = Some t"
    if "(s', g') \<in> set (rmatch (Cat a (Cat b (Cat number_group Eps))) (s, g))" for a b
  proof -
    from that obtain s1 g1 s2 g2 s3 g3 where
      "(s1, g1) \<in> set (rmatch a (s, g))" "(s2, g2) \<in> set (rmatch b (s1, g1))"
      "(s3, g3) \<in> set (rmatch number_group (s2, g2))" "(s', g') \<in> set (rmatch Eps (s3, g3))"
      unfolding rmatch_Cat by blast
    with number_group_shape show ?thesis by auto
  qed
  from assms(1) consider
      "p = Cat number_group (seq [Star Space, Atom (Lit (CHR ''%''))])"
    | "p = Cat hplc (Cat (Star Space) (Cat number_group Eps))"
    | "p = Cat number_group (seq [Star Space, hplc])"
    | "p = Cat number_group (seq [Star Space, Eol])"
    by (auto simp: hba1c_patterns_def seq_def)
  then show ?thesis
  proof cases
    case 1
    with assms(2) first show ?thesis by (simp add: seq_def del: rmatch.simps)
  next
    case 2
    with assms(2) last show ?thesis by blast
  next
    case 3
    with assms(2) first show ?thesis by (simp add: seq_def hplc_def del: rmatch.simps)
  next
    case 4
    with assms(2) first show ?thesis by (simp add: seq_def del: rmatch.simps)
  qed
qed

lemma rmatch_head:
  "rmatch r st = (s', g) # rest \<Longrightarrow> (s', g) \<in> set (rmatch r st)"
  by simp

lemma re_search_result:
  "re_search r s = Some g \<Longrightarrow> \<exists>t s'. (s', g) \<in> set (rmatch r (t, Map.empty))"
proof (induction s)
  case Nil
  then obtain s' rest where "rmatch r ([], Map.empty) = (s', g) # rest"
    by (auto split: list.splits)
  then show ?case by (blast dest: rmatch_head)
next
  case (Cons c cs)
  show ?case
  proof (cases "rmatch r (c # cs, Map.empty)")
    case Nil
    with Cons.prems Cons.IH show ?thesis by simp
  next
    case (Cons st sts)
    with Cons.prems obtain s' where "rmatch r (c # cs, Map.empty) = (s', g) # sts"
      by (cases st) auto
    then show ?thesis by (blast dest: rmatch_head)
  qed
qed

section \<open>\<open>float\<close> on a captured number\<close>

lemma is_digit_cases:
  "is_digit c \<Longrightarrow>
     c = CHR ''0'' \<or> c = CHR ''1'' \<or> c = CHR ''2'' \<or> c = CHR ''3'' \<or> c = CHR ''4'' \<or>
     c = CHR ''5'' \<or> c = CHR ''6'' \<or> c = CHR ''7'' \<or> c = CHR ''8'' \<or> c = CHR ''9''"
  by (simp add: is_digit_def)

lemma is_digit_facts:
  assumes "is_digit c"
  shows "c \<noteq> CHR ''_'' \<and> c \<noteq> CHR ''-'' \<and> c \<noteq> CHR ''+'' \<and> c \<noteq> CHR ''.'' \<and> \<not> c_isspace c \<and>
     lower_char c = c \<and> 0 \<le> digit_val c \<and> (of_char c :: nat) < 128"
  using is_digit_cases [OF assms]
  by (elim disjE)
    (simp_all add: c_isspace_def lower_char_def upper_letters_def lower_letters_def digit_val_def)

lemma dot_facts:
  "\<not> is_digit (CHR ''.'') \<and> \<not> c_isspace (CHR ''.'') \<and> (of_char (CHR ''.'') :: nat) < 128"
  by (simp add: is_digit_def c_isspace_def)

lemma foldl_digits_nonneg:
  "list_all is_digit ds \<Longrightarrow> 0 \<le> n \<Longrightarrow> 0 \<le> foldl (\<lambda>n c. 10 * n + digit_val c) n ds"
  by (induction ds arbitrary: n) (auto simp: is_digit_facts)

lemma digits_val_nonneg: "list_all is_digit ds \<Longrightarrow> 0 \<le> digits_val ds"
  by (simp add: digits_val_def foldl_digits_nonneg)

lemma pow10_pos: "0 < pow10 e"
  by (simp add: pow10_def)

lemma takeWhile_all_digits: "list_all is_digit ds \<Longrightarrow> takeWhile is_digit ds = ds"
  by (simp add: list_all_iff)

lemma dropWhile_all_digits: "list_all is_digit ds \<Longrightarrow> dropWhile is_digit ds = []"
  by (simp add: list_all_iff)

lemma parse_decimal_digits:
  assumes "ds \<noteq> []" "list_all is_digit ds"
  shows "parse_decimal ds = Some (of_int (digits_val ds))"
  using assms
  by (simp add: parse_decimal_def takeWhile_all_digits dropWhile_all_digits
      parse_exponent_def pow10_def)

lemma takeWhile_digits_point:
  assumes "list_all is_digit d1"
  shows "takeWhile is_digit (d1 @ CHR ''.'' # d2) = d1"
  using assms by (simp add: takeWhile_append2 list_all_iff dot_facts)

lemma dropWhile_digits_point:
  assumes "list_all is_digit d1"
  shows "dropWhile is_digit (d1 @ CHR ''.'' # d2) = CHR ''.'' # d2"
  using assms by (simp add: dropWhile_append2 list_all_iff dot_facts)

lemma parse_decimal_point:
  assumes "d1 \<noteq> []" "list_all is_digit d1" "list_all is_digit d2"
  shows "parse_decimal (d1 @ CHR ''.'' # d2) =
           Some (of_int (digits_val (d1 @ d2)) * pow10 (- int (length d2)))"
proof -
  have t: "takeWhile is_digit (d1 @ CHR ''.'' # d2) = d1"
    using assms(2) by (rule takeWhile_digits_point)
  have d: "dropWhile is_digit (d1 @ CHR ''.'' # d2) = CHR ''.'' # d2"
    using assms(2) by (rule dropWhile_digits_point)
  have t2: "takeWhile is_digit d2 = d2" using assms(3) by (rule takeWhile_all_digits)
  have d2: "dropWhile is_digit d2 = []" using assms(3) by (rule dropWhile_all_digits)
  have e: "parse_exponent [] = Some 0" by (simp add: parse_exponent_def)
  have "parse_decimal (d1 @ CHR ''.'' # d2) =
          (if d1 = [] \<and> d2 = [] then None
           else (case parse_exponent [] of None \<Rightarrow> None
                 | Some e \<Rightarrow> Some (of_int (digits_val (d1 @ d2)) * pow10 (e - int (length d2)))))"
    unfolding parse_decimal_def Let_def t d by (simp only: list.case if_True t2 d2 simp_thms)
  with assms(1) e show ?thesis by simp
qed

lemma parse_decimal_shape:
  assumes "decimal_shape t"
  shows "\<exists>q. 0 \<le> q \<and> parse_decimal t = Some q"
proof -
  from assms obtain d1 dot d2 where t: "t = d1 @ dot @ d2" and d1: "d1 \<noteq> []" "list_all is_digit d1"
    and dot: "dot = [] \<or> dot = ''.''" and d2: "list_all is_digit d2"
    unfolding decimal_shape_def by blast
  from d1 d2 have "list_all is_digit (d1 @ d2)" by simp
  then have "0 \<le> digits_val (d1 @ d2)" by (rule digits_val_nonneg)
  then have nonneg: "(0::rat) \<le> of_int (digits_val (d1 @ d2))" by simp
  from dot show ?thesis
  proof
    assume "dot = []"
    with t have t': "t = d1 @ d2" by simp
    from d1 d2 have "d1 @ d2 \<noteq> []" "list_all is_digit (d1 @ d2)" by simp_all
    then have "parse_decimal (d1 @ d2) = Some (of_int (digits_val (d1 @ d2)))"
      by (rule parse_decimal_digits)
    with nonneg t' show ?thesis by blast
  next
    assume "dot = ''.''"
    with t have t': "t = d1 @ CHR ''.'' # d2" by simp
    have p: "parse_decimal (d1 @ CHR ''.'' # d2) =
        Some (of_int (digits_val (d1 @ d2)) * pow10 (- int (length d2)))"
      using d1 d2 by (rule parse_decimal_point)
    have "0 \<le> pow10 (- int (length d2))" by (rule less_imp_le [OF pow10_pos])
    with nonneg have "0 \<le> of_int (digits_val (d1 @ d2)) * pow10 (- int (length d2))"
      by (rule mult_nonneg_nonneg)
    with p t' show ?thesis by blast
  qed
qed

lemma decimal_shape_ends:
  assumes "decimal_shape t"
  shows "\<exists>x rest. t = x # rest \<and> is_digit x" and "\<exists>y front. t = front @ [y] \<and> \<not> c_isspace y"
    and "CHR ''_'' \<notin> set t" and "to_ascii t = t"
proof -
  from assms obtain d1 dot d2 where t: "t = d1 @ dot @ d2" and d1: "d1 \<noteq> []" "list_all is_digit d1"
    and dot: "dot = [] \<or> dot = ''.''" and d2: "list_all is_digit d2"
    unfolding decimal_shape_def by blast
  from d1 obtain x r where "d1 = x # r" "is_digit x" by (cases d1) auto
  with t show "\<exists>x rest. t = x # rest \<and> is_digit x" by simp
  have all: "\<forall>c \<in> set t. is_digit c \<or> c = CHR ''.''"
    using t d1 d2 dot by (auto simp: list_all_iff)
  then show "CHR ''_'' \<notin> set t" using is_digit_facts by auto
  from all have "\<forall>c \<in> set t. (of_char c :: nat) < 128"
    using is_digit_facts dot_facts by blast
  then have "list_all (\<lambda>c. (of_char c :: nat) < 128) t" by (simp add: list_all_iff)
  then show "to_ascii t = t" by (simp add: to_ascii_def)
  from t d1 have "t \<noteq> []" by simp
  then obtain front y where fy: "t = front @ [y]" by (cases t rule: rev_cases) auto
  with all have "is_digit y \<or> y = CHR ''.''" by simp
  then have "\<not> c_isspace y" using is_digit_facts dot_facts by auto
  with fy show "\<exists>y front. t = front @ [y] \<and> \<not> c_isspace y" by blast
qed

lemma py_float_decimal:
  assumes "decimal_shape t"
  shows "\<exists>q. 0 \<le> q \<and> py_float t = Inr (nearest_double q)"
proof -
  from decimal_shape_ends [OF assms] obtain x rest y front where
    hd: "t = x # rest" "is_digit x" and lst: "t = front @ [y]" "\<not> c_isspace y"
    and us: "CHR ''_'' \<notin> set t" and ascii: "to_ascii t = t"
    by blast
  from hd have "dropWhile c_isspace t = t" by (simp add: is_digit_facts)
  moreover from lst have "dropWhile c_isspace (rev t) = rev t" by simp
  ultimately have strip: "rev (dropWhile c_isspace (rev (dropWhile c_isspace t))) = t" by simp
  from hd have sign: "take_sign t = (False, t)" by (simp add: is_digit_facts)
  from hd have "hd (py_lower t) = x" by (simp add: py_lower_def is_digit_facts)
  with hd(2) have special: "py_lower t \<noteq> ''inf''" "py_lower t \<noteq> ''infinity''" "py_lower t \<noteq> ''nan''"
    by (auto simp: is_digit_def)
  from parse_decimal_shape [OF assms] obtain q where q: "0 \<le> q" "parse_decimal t = Some q"
    by blast
  from sign special q have "parse_signed t = Some (nearest_double q)"
    by (simp add: parse_signed_def)
  with us strip ascii have "py_float t = Inr (nearest_double q)" by (simp add: py_float_def)
  with q show ?thesis by blast
qed

lemma try_patterns_hba1c_result:
  assumes "set ps \<subseteq> set hba1c_patterns" and "try_patterns_hba1c ps s = Some r"
  shows "\<exists>q. 0 \<le> q \<and> r = Inr (nearest_double q)"
  using assms
proof (induction ps)
  case Nil
  then show ?case by simp
next
  case (Cons p ps)
  show ?case
  proof (cases "re_search p s")
    case None
    with Cons show ?thesis by simp
  next
    case (Some g)
    from re_search_result [OF Some] obtain t s' where "(s', g) \<in> set (rmatch p (t, Map.empty))"
      by blast
    moreover from Cons.prems have "p \<in> set hba1c_patterns" by simp
    ultimately obtain c where c: "decimal_shape c" "g 1 = Some c"
      using hba1c_patterns_capture by blast
    from Some c Cons.prems(2) have "r = py_float c" by simp
    with py_float_decimal [OF c(1)] show ?thesis by auto
  qed
qed

lemma scan_words_returns: "\<exists>r. scan_words ws = Inr r"
  by (simp add: scan_words_find)

text \<open>
  C8. \<open>extract_value\<close> is the body of the \<open>try\<close> under a handler that turns every
  exception into \<open>None\<close>, so its result is a number or absent whatever the body does.
  On strings the handler is in fact never needed: the body raises nothing, because a text
  captured by one of the four patterns is always accepted by \<open>float\<close> and the token scan
  handles the \<open>ValueError\<close> of \<open>float\<close> itself.
\<close>

theorem extract_value_never_raises:
  "\<exists>r. extract_value_body line biomarker_name = Inr r \<and> extract_value line biomarker_name = r"
proof (cases "py_in ''hba1c'' (py_lower biomarker_name)")
  case False
  with scan_words_returns [of "rev (py_split (clean line))"] show ?thesis
    by (auto simp: extract_value_def extract_value_body_def)
next
  case True
  show ?thesis
  proof (cases "try_patterns_hba1c hba1c_patterns (clean line)")
    case None
    with True scan_words_returns [of "rev (py_split (clean line))"] show ?thesis
      by (auto simp: extract_value_def extract_value_body_def)
  next
    case (Some r)
    with try_patterns_hba1c_result [of hba1c_patterns "clean line" r]
    obtain q where "r = Inr (nearest_double q)" by auto
    with True Some show ?thesis
      by (simp add: extract_value_def extract_value_body_def)
  qed
qed

section \<open>The scan over the lines\<close>

lemma lookahead_two:
  "lookahead lines idx b [1 ..< 3] =
     (if idx + 1 < length lines \<and> extract_value (lines ! (idx + 1)) b \<noteq> None
      then extract_value (lines ! (idx + 1)) b
      else if idx + 2 < length lines then extract_value (lines ! (idx + 2)) b
      else None)"
proof -
  have "[1 ..< 3] = [1, 2::nat]" by (simp add: upt_rec)
  then show ?thesis by (auto split: option.splits)
qed

lemma try_patterns_no_alias:
  "\<forall>p \<in> set pats. \<not> py_in (py_lower p) (py_lower (lines ! idx)) \<Longrightarrow>
   try_patterns lines idx b pats = None"
  by (induction pats) auto

lemma try_patterns_Cons:
  "try_patterns lines idx b (p # rest) =
     (if py_in (py_lower p) (py_lower (lines ! idx)) then
        (case (if b = ''HbA1c'' then lookahead lines idx b [1 ..< 3]
               else extract_value (lines ! idx) b) of
           Some v \<Rightarrow> Some v
         | None \<Rightarrow> try_patterns lines idx b rest)
      else try_patterns lines idx b rest)"
  by (simp del: One_nat_def)

lemma try_patterns_alias:
  "\<exists>p \<in> set pats. py_in (py_lower p) (py_lower (lines ! idx)) \<Longrightarrow>
   try_patterns lines idx b pats =
     (if b = ''HbA1c'' then lookahead lines idx b [1 ..< 3] else extract_value (lines ! idx) b)"
proof (induction pats)
  case Nil
  then show ?case by simp
next
  case (Cons p pats)
  define A where
    "A = (if b = ''HbA1c'' then lookahead lines idx b [1 ..< 3] else extract_value (lines ! idx) b)"
  have step: "try_patterns lines idx b (p # pats) =
     (if py_in (py_lower p) (py_lower (lines ! idx)) then
        (case A of Some v \<Rightarrow> Some v | None \<Rightarrow> try_patterns lines idx b pats)
      else try_patterns lines idx b pats)"
    unfolding A_def by (rule try_patterns_Cons)
  show ?case
  proof (cases "\<exists>q \<in> set pats. py_in (py_lower q) (py_lower (lines ! idx))")
    case True
    with Cons.IH have "try_patterns lines idx b pats = A" by (simp add: A_def)
    with step have "try_patterns lines idx b (p # pats) = A"
      by (cases A) simp_all
    then show ?thesis by (simp only: A_def)
  next
    case False
    then have none: "try_patterns lines idx b pats = None"
      by (intro try_patterns_no_alias) simp
    from False Cons.prems have "py_in (py_lower p) (py_lower (lines ! idx))" by auto
    with none step have "try_patterns lines idx b (p # pats) = A"
      by (cases A) simp_all
    then show ?thesis by (simp only: A_def)
  qed
qed

text \<open>
  C4. What one line contributes to a biomarker that has no value yet. If no alias occurs in
  line \<open>idx\<close> (compared in lower case), nothing. If one does, then for HbA1c the value is
  extracted from line \<open>idx + 1\<close>, or else from line \<open>idx + 2\<close> (each only if it
  exists), and line \<open>idx\<close> itself is never passed to \<open>extract_value\<close>; for every other
  biomarker it is extracted from line \<open>idx\<close> and from no other line.
\<close>

theorem lookahead_discipline:
  "try_patterns lines idx b pats =
     (if \<exists>p \<in> set pats. py_in (py_lower p) (py_lower (lines ! idx)) then
        (if b = ''HbA1c'' then
           (if idx + 1 < length lines \<and> extract_value (lines ! (idx + 1)) b \<noteq> None
            then extract_value (lines ! (idx + 1)) b
            else if idx + 2 < length lines then extract_value (lines ! (idx + 2)) b
            else None)
         else extract_value (lines ! idx) b)
      else None)"
proof (cases "\<exists>p \<in> set pats. py_in (py_lower p) (py_lower (lines ! idx))")
  case True
  then show ?thesis
    by (simp only: try_patterns_alias [OF True] lookahead_two if_True)
next
  case False
  then have "try_patterns lines idx b pats = None"
    by (intro try_patterns_no_alias) simp
  with False show ?thesis by (simp only: if_False)
qed

lemma map_of_process_line:
  "map_of (process_line lines idx bms) b =
     map_option (\<lambda>info. if val info = None
                         then info\<lparr>val := try_patterns lines idx b (patterns info)\<rparr>
                         else info)
       (map_of bms b)"
  by (induction bms) (auto simp: process_line_def process_biomarker_def)

lemma value_of_fold_process_line:
  "map_of bms b = Some info \<Longrightarrow>
   value_of (fold (process_line lines) idxs bms) b =
     (case val info of
        Some v \<Rightarrow> Some v
      | None \<Rightarrow>
          (case find (\<lambda>i. try_patterns lines i b (patterns info) \<noteq> None) idxs of
             None \<Rightarrow> None
           | Some i \<Rightarrow> try_patterns lines i b (patterns info)))"
proof (induction idxs arbitrary: bms info)
  case Nil
  then show ?case by (simp add: value_of_def split: option.splits)
next
  case (Cons i idxs)
  let ?info' = "if val info = None
                then info\<lparr>val := try_patterns lines i b (patterns info)\<rparr> else info"
  from Cons.prems have "map_of (process_line lines i bms) b = Some ?info'"
    by (simp add: map_of_process_line)
  from Cons.IH [OF this] show ?case
    by (auto split: option.splits)
qed

text \<open>
  C1. For a biomarker of the dictionary, after any sequence of lines has been processed:
  a value present at the start is kept unchanged (no later line or alias overwrites it);
  if none was present, the value is the one extracted at the first line, in the order
  processed, at which an extraction for this biomarker succeeds. In particular, of two
  lines \<open>i < j\<close> of the text that both give a value, where no line before \<open>i\<close> gives one,
  the scan of the whole text keeps the value of line \<open>i\<close>.
\<close>

theorem first_match_wins:
  assumes "map_of bms b = Some info"
  shows "value_of (fold (process_line lines) idxs bms) b =
           (case val info of
              Some v \<Rightarrow> Some v
            | None \<Rightarrow>
                (case find (\<lambda>i. try_patterns lines i b (patterns info) \<noteq> None) idxs of
                   None \<Rightarrow> None
                 | Some i \<Rightarrow> try_patterns lines i b (patterns info))) \<and>
         (val info = None \<and> i < j \<and> j < length lines \<and>
          try_patterns lines i b (patterns info) = Some v \<and>
          try_patterns lines j b (patterns info) = Some w \<and>
          (\<forall>k < i. try_patterns lines k b (patterns info) = None)
            \<longrightarrow> value_of (scan_lines lines bms) b = Some v)"
proof (intro conjI impI)
  show "value_of (fold (process_line lines) idxs bms) b =
           (case val info of
              Some v \<Rightarrow> Some v
            | None \<Rightarrow>
                (case find (\<lambda>i. try_patterns lines i b (patterns info) \<noteq> None) idxs of
                   None \<Rightarrow> None
                 | Some i \<Rightarrow> try_patterns lines i b (patterns info)))"
    using assms by (rule value_of_fold_process_line)
next
  assume h: "val info = None \<and> i < j \<and> j < length lines \<and>
          try_patterns lines i b (patterns info) = Some v \<and>
          try_patterns lines j b (patterns info) = Some w \<and>
          (\<forall>k < i. try_patterns lines k b (patterns info) = None)"
  let ?P = "\<lambda>i. try_patterns lines i b (patterns info) \<noteq> None"
  from h have "find ?P [0 ..< length lines] = Some i"
    by (auto simp: find_Some_iff intro!: exI [of _ i])
  with h value_of_fold_process_line [OF assms, of lines "[0 ..< length lines]"]
  show "value_of (scan_lines lines bms) b = Some v"
    by (simp add: scan_lines_def)
qed

section \<open>The assembled mapping\<close>

lemma fst_process_line: "map fst (process_line lines idx bms) = map fst bms"
  by (induction bms) (auto simp: process_line_def process_biomarker_def)

lemma fst_fold_process_line: "map fst (fold (process_line lines) idxs bms) = map fst bms"
  by (induction idxs arbitrary: bms) (simp_all add: fst_process_line)

lemma fst_scan_lines: "map fst (scan_lines lines bms) = map fst bms"
  by (simp add: scan_lines_def fst_fold_process_line)

lemma value_of_Cons:
  "value_of ((b0, i0) # rest) b = (if b = b0 then val i0 else value_of rest b)"
  by (simp add: value_of_def)

lemma value_of_absent: "b \<notin> set (map fst bms) \<Longrightarrow> value_of bms b = None"
proof -
  assume "b \<notin> set (map fst bms)"
  then have "map_of bms b = None" by (simp add: map_of_eq_None_iff)
  then show ?thesis by (simp add: value_of_def)
qed

lemma build_biomarkers_data_result:
  assumes "distinct (map fst bms)"
    and "\<forall>b \<in> set (map fst bms). map_of ranges b \<noteq> None"
  shows "\<exists>m. build_biomarkers_data ranges bms acc = Inr m \<and>
           (\<forall>b. m b =
              (case value_of bms b of
                 None \<Rightarrow> acc b
               | Some v \<Rightarrow>
                   map_option
                     (\<lambda>r. \<lparr>unit_name = unit_name r, reference_range = reference_range r,
                            low = low r, high = high r, entry_value = v\<rparr>)
                     (map_of ranges b)))"
  using assms
proof (induction bms arbitrary: acc)
  case Nil
  then show ?case by (simp add: value_of_def)
next
  case (Cons e rest)
  obtain b0 i0 where e: "e = (b0, i0)" by (cases e)
  from Cons.prems e have d: "distinct (map fst rest)" and notin: "b0 \<notin> set (map fst rest)"
    and r: "\<forall>b \<in> set (map fst rest). map_of ranges b \<noteq> None"
    and r0: "map_of ranges b0 \<noteq> None"
    by auto
  from notin have absent: "value_of rest b0 = None" by (rule value_of_absent)
  show ?case
  proof (cases "val i0")
    case None
    from Cons.IH [OF d r, of acc] obtain m where
      m: "build_biomarkers_data ranges rest acc = Inr m"
      and mb: "\<And>b. m b = (case value_of rest b of None \<Rightarrow> acc b
               | Some v \<Rightarrow> map_option
                     (\<lambda>r. \<lparr>unit_name = unit_name r, reference_range = reference_range r,
                            low = low r, high = high r, entry_value = v\<rparr>)
                     (map_of ranges b))"
      by blast
    from None m e have "build_biomarkers_data ranges (e # rest) acc = Inr m" by simp
    moreover have "\<forall>b. m b = (case value_of (e # rest) b of None \<Rightarrow> acc b
               | Some v \<Rightarrow> map_option
                     (\<lambda>r. \<lparr>unit_name = unit_name r, reference_range = reference_range r,
                            low = low r, high = high r, entry_value = v\<rparr>)
                     (map_of ranges b))"
      using None absent by (auto simp: e value_of_Cons mb split: option.splits)
    ultimately show ?thesis by blast
  next
    case (Some v)
    from r0 obtain rr where rr: "map_of ranges b0 = Some rr" by auto
    let ?entry = "\<lparr>unit_name = unit_name rr, reference_range = reference_range rr,
                   low = low rr, high = high rr, entry_value = v\<rparr>"
    from Cons.IH [OF d r, of "acc(b0 \<mapsto> ?entry)"] obtain m where
      m: "build_biomarkers_data ranges rest (acc(b0 \<mapsto> ?entry)) = Inr m"
      and mb: "\<And>b. m b = (case value_of rest b of None \<Rightarrow> (acc(b0 \<mapsto> ?entry)) b
               | Some v \<Rightarrow> map_option
                     (\<lambda>r. \<lparr>unit_name = unit_name r, reference_range = reference_range r,
                            low = low r, high = high r, entry_value = v\<rparr>)
                     (map_of ranges b))"
      by blast
    from Some rr m e have "build_biomarkers_data ranges (e # rest) acc = Inr m" by simp
    moreover have "\<forall>b. m b = (case value_of (e # rest) b of None \<Rightarrow> acc b
               | Some v \<Rightarrow> map_option
                     (\<lambda>r. \<lparr>unit_name = unit_name r, reference_range = reference_range r,
                            low = low r, high = high r, entry_value = v\<rparr>)
                     (map_of ranges b))"
      using Some absent rr by (auto simp: e value_of_Cons mb split: option.splits)
    ultimately show ?thesis by blast
  qed
qed

lemma biomarker_names:
  "set (map fst biomarkers_init) =
     {''Vitamin D'', ''Vitamin B12'', ''Total Cholesterol'', ''LDL'', ''HDL'',
      ''Triglycerides'', ''Creatinine'', ''HbA1c''}"
  by (auto simp: biomarkers_init_def)

lemma biomarker_names_distinct: "distinct (map fst biomarkers_init)"
  by (simp add: biomarkers_init_def)

lemma ranges_cover_names:
  "\<forall>b \<in> set (map fst biomarkers_init). map_of get_reference_ranges b \<noteq> None"
  by (simp add: biomarkers_init_def get_reference_ranges_def)

lemma build_after_scan:
  "\<exists>m. build_biomarkers_data get_reference_ranges (scan_lines lines biomarkers_init) Map.empty
          = Inr m \<and>
        (\<forall>b. m b =
           (case value_of (scan_lines lines biomarkers_init) b of
              None \<Rightarrow> None
            | Some v \<Rightarrow>
                map_option
                  (\<lambda>r. \<lparr>unit_name = unit_name r, reference_range = reference_range r,
                         low = low r, high = high r, entry_value = v\<rparr>)
                  (map_of get_reference_ranges b)))"
  using build_biomarkers_data_result [of "scan_lines lines biomarkers_init" get_reference_ranges Map.empty]
  by (simp add: fst_scan_lines biomarker_names_distinct ranges_cover_names)

text \<open>
  C7. For every text, building \<open>biomarkers_data\<close> from the result of the scan succeeds;
  its keys are among the eight fixed names; a biomarker without a value has no entry; and
  a biomarker with a value has the entry that joins the value with the unit, display range,
  low and high bound of its reference range.
\<close>

theorem assembled_mapping_exact:
  "\<exists>m. build_biomarkers_data get_reference_ranges (scan_lines lines biomarkers_init) Map.empty
          = Inr m \<and>
        dom m \<subseteq> {''Vitamin D'', ''Vitamin B12'', ''Total Cholesterol'', ''LDL'', ''HDL'',
                  ''Triglycerides'', ''Creatinine'', ''HbA1c''} \<and>
        (\<forall>b. value_of (scan_lines lines biomarkers_init) b = None \<longrightarrow> m b = None) \<and>
        (\<forall>b v. value_of (scan_lines lines biomarkers_init) b = Some v \<longrightarrow>
           (\<exists>r. map_of get_reference_ranges b = Some r \<and>
                m b = Some \<lparr>unit_name = unit_name r, reference_range = reference_range r,
                            low = low r, high = high r, entry_value = v\<rparr>))"
proof -
  let ?S = "scan_lines lines biomarkers_init"
  from build_after_scan [of lines] obtain m where
    m: "build_biomarkers_data get_reference_ranges ?S Map.empty = Inr m"
    and mb: "\<And>b. m b = (case value_of ?S b of None \<Rightarrow> None
            | Some v \<Rightarrow> map_option
                  (\<lambda>r. \<lparr>unit_name = unit_name r, reference_range = reference_range r,
                         low = low r, high = high r, entry_value = v\<rparr>)
                  (map_of get_reference_ranges b))"
    by blast
  have names: "set (map fst ?S) = set (map fst biomarkers_init)"
    by (simp only: fst_scan_lines)
  have absent: "m b = None" if "value_of ?S b = None" for b
    using that by (simp add: mb)
  have present: "\<exists>r. map_of get_reference_ranges b = Some r \<and>
                m b = Some \<lparr>unit_name = unit_name r, reference_range = reference_range r,
                            low = low r, high = high r, entry_value = v\<rparr>"
    if v: "value_of ?S b = Some v" for b v
  proof -
    from v value_of_absent [of b ?S] have "b \<in> set (map fst ?S)" by fastforce
    with names ranges_cover_names obtain r where "map_of get_reference_ranges b = Some r"
      by auto
    with v show ?thesis by (simp add: mb)
  qed
  have "dom m \<subseteq> set (map fst biomarkers_init)"
  proof
    fix b assume "b \<in> dom m"
    then have "m b \<noteq> None" by auto
    with absent [of b] have "value_of ?S b \<noteq> None" by blast
    with value_of_absent [of b ?S] have "b \<in> set (map fst ?S)" by blast
    with names show "b \<in> set (map fst biomarkers_init)" by simp
  qed
  then have "dom m \<subseteq> {''Vitamin D'', ''Vitamin B12'', ''Total Cholesterol'', ''LDL'', ''HDL'',
                  ''Triglycerides'', ''Creatinine'', ''HbA1c''}"
    by (simp only: biomarker_names)
  with m absent present show ?thesis by blast
qed

section \<open>Patient information\<close>

lemma scan_patient_lines_no_marker:
  "\<forall>l \<in> set ls. \<not> py_in ''NAME'' l \<Longrightarrow>
   scan_patient_lines ls today = Inr (unknown_patient today)"
  by (induction ls) auto

text \<open>
  C6. If no line of the text contains \<open>NAME\<close>, \<open>extract_patient_info\<close> returns the
  patient named \<open>Unknown\<close>, without age and gender, dated with the current date, and
  the report is assembled with that patient.
\<close>

theorem missing_marker_sentinel:
  assumes "\<forall>l \<in> set (py_split_on nl text). \<not> py_in ''NAME'' l"
  shows "extract_patient_info text today =
           Inr \<lparr>name = ''Unknown'', age = None, gender = None, date = today\<rparr> \<and>
         (\<exists>r. assemble_report text today now pdf_name = Inr r \<and>
              patient r = \<lparr>name = ''Unknown'', age = None, gender = None, date = today\<rparr>)"
proof -
  from assms have p: "extract_patient_info text today = Inr (unknown_patient today)"
    by (simp add: extract_patient_info_def scan_patient_lines_no_marker)
  from build_after_scan [of "py_split_on nl text"] obtain m where
    "build_biomarkers_data get_reference_ranges
       (scan_lines (py_split_on nl text) biomarkers_init) Map.empty = Inr m"
    by blast
  with p show ?thesis
    by (simp add: assemble_report_def unknown_patient_def)
qed

theorem missing_marker_sentinel_witness:
  "py_split_on nl (''LAB REPORT'' @ [nl] @ ''Name: Bob'') = [''LAB REPORT'', ''Name: Bob''] \<and>
   \<not> py_in ''NAME'' ''LAB REPORT'' \<and> \<not> py_in ''NAME'' ''Name: Bob'' \<and>
   extract_patient_info (''LAB REPORT'' @ [nl] @ ''Name: Bob'') ''2024-01-01'' =
     Inr \<lparr>name = ''Unknown'', age = None, gender = None, date = ''2024-01-01''\<rparr>"
proof -
  have s: "py_split_on nl (''LAB REPORT'' @ [nl] @ ''Name: Bob'') = [''LAB REPORT'', ''Name: Bob'']"
    by code_simp
  have n1: "\<not> py_in ''NAME'' ''LAB REPORT''" by code_simp
  have n2: "\<not> py_in ''NAME'' ''Name: Bob''" by code_simp
  from s n1 n2 have h:
    "\<forall>l \<in> set (py_split_on nl (''LAB REPORT'' @ [nl] @ ''Name: Bob'')). \<not> py_in ''NAME'' l"
    by simp
  from missing_marker_sentinel [OF h] s n1 n2 show ?thesis by blast
qed

lemma scan_patient_lines_find:
  "scan_patient_lines ls today =
     (case find (\<lambda>l. py_in ''NAME'' l \<and> re_search name_pattern l \<noteq> None) ls of
        None \<Rightarrow> Inr (unknown_patient today)
      | Some l \<Rightarrow>
          (case re_search name_pattern l of
             None \<Rightarrow> Inr (unknown_patient today)
           | Some g \<Rightarrow> info_of_match g today))"
  by (induction ls) (auto split: option.splits)

text \<open>
  C5, as stated, fails. In the text of the two lines \<open>NAME\<close> and \<open>NAME: Bob\<close> the first
  line that contains the marker is \<open>NAME\<close>. That line alone gives the unknown patient,
  but the text gives \<open>Dr. Bob\<close>: the pattern does not match the first line, and the loop
  goes on to the second.
\<close>

theorem first_marker_line_counterexample:
  "find (py_in ''NAME'') (py_split_on nl (''NAME'' @ [nl] @ ''NAME: Bob'')) = Some ''NAME'' \<and>
   extract_patient_info ''NAME'' ''2024-01-01'' =
     Inr \<lparr>name = ''Unknown'', age = None, gender = None, date = ''2024-01-01''\<rparr> \<and>
   extract_patient_info (''NAME'' @ [nl] @ ''NAME: Bob'') ''2024-01-01'' =
     Inr \<lparr>name = ''Dr. Bob'', age = None, gender = None, date = ''2024-01-01''\<rparr>"
  by code_simp

text \<open>
  C5, amended. \<open>extract_patient_info\<close> takes the first line that contains \<open>NAME\<close> and
  on which the name pattern matches, and derives name, age and gender from the match on
  that line alone; marker lines before it that the pattern does not match are passed over,
  and all lines after it are ignored. Without such a line the result is the unknown patient.
\<close>

theorem first_matching_marker_line:
  "extract_patient_info text today =
     (case find (\<lambda>l. py_in ''NAME'' l \<and> re_search name_pattern l \<noteq> None) (py_split_on nl text) of
        None \<Rightarrow> Inr \<lparr>name = ''Unknown'', age = None, gender = None, date = today\<rparr>
      | Some l \<Rightarrow>
          (case re_search name_pattern l of
             None \<Rightarrow> Inr \<lparr>name = ''Unknown'', age = None, gender = None, date = today\<rparr>
           | Some g \<Rightarrow> info_of_match g today))"
  unfolding extract_patient_info_def scan_patient_lines_find unknown_patient_def
  by (rule refl)

section \<open>Instances\<close>

theorem lookahead_discipline_witness:
  "(\<exists>p \<in> set [''HbA1c'', ''HbA1c - (HPLC)'', ''GLYCATED HEMOGLOBIN''].
      py_in (py_lower p) (py_lower ([''HbA1c 9.9'', ''note'', ''6.1 %''] ! 0))) \<and>
   try_patterns [''HbA1c 9.9'', ''note'', ''6.1 %''] 0 ''HbA1c''
     [''HbA1c'', ''HbA1c - (HPLC)'', ''GLYCATED HEMOGLOBIN''] = Some (nearest_double (61 / 10))"
proof -
  have h: "\<exists>p \<in> set [''HbA1c'', ''HbA1c - (HPLC)'', ''GLYCATED HEMOGLOBIN''].
      py_in (py_lower p) (py_lower ([''HbA1c 9.9'', ''note'', ''6.1 %''] ! 0))"
    by code_simp
  have e1: "extract_value ''note'' ''HbA1c'' = None" by code_simp
  have e2: "extract_value ''6.1 %'' ''HbA1c'' = Some (nearest_double (61 / 10))" by code_simp
  from h e1 e2
    lookahead_discipline [of "[''HbA1c 9.9'', ''note'', ''6.1 %'']" 0 "''HbA1c''"
      "[''HbA1c'', ''HbA1c - (HPLC)'', ''GLYCATED HEMOGLOBIN'']"]
  show ?thesis by simp
qed

theorem first_match_wins_witness:
  "map_of biomarkers_init ''Creatinine'' =
     Some \<lparr>patterns = [''CREATININE'', ''CREATININE - SERUM''], val = None\<rparr> \<and>
   try_patterns [''Creatinine 0.9 mg/dL'', ''Creatinine 1.1 mg/dL''] 0 ''Creatinine''
     [''CREATININE'', ''CREATININE - SERUM''] = Some (nearest_double (9 / 10)) \<and>
   try_patterns [''Creatinine 0.9 mg/dL'', ''Creatinine 1.1 mg/dL''] 1 ''Creatinine''
     [''CREATININE'', ''CREATININE - SERUM''] = Some (nearest_double (11 / 10)) \<and>
   value_of (scan_lines [''Creatinine 0.9 mg/dL'', ''Creatinine 1.1 mg/dL''] biomarkers_init)
     ''Creatinine'' = Some (nearest_double (9 / 10))"
proof -
  let ?lines = "[''Creatinine 0.9 mg/dL'', ''Creatinine 1.1 mg/dL'']"
  let ?info = "\<lparr>patterns = [''CREATININE'', ''CREATININE - SERUM''], val = None\<rparr>"
  have a: "map_of biomarkers_init ''Creatinine'' = Some ?info"
    by (simp add: biomarkers_init_def)
  have t0: "try_patterns ?lines 0 ''Creatinine'' [''CREATININE'', ''CREATININE - SERUM'']
              = Some (nearest_double (9 / 10))"
    by code_simp
  have t1: "try_patterns ?lines 1 ''Creatinine'' [''CREATININE'', ''CREATININE - SERUM'']
              = Some (nearest_double (11 / 10))"
    by code_simp
  from first_match_wins [OF a, of ?lines "[]" 0 1 "nearest_double (9 / 10)" "nearest_double (11 / 10)"] t0 t1
  have "value_of (scan_lines ?lines biomarkers_init) ''Creatinine'' = Some (nearest_double (9 / 10))"
    by simp
  with a t0 t1 show ?thesis by simp
qed

theorem assembled_mapping_exact_witness:
  "value_of (scan_lines [''Creatinine 0.9 mg/dL''] biomarkers_init) ''Creatinine''
     = Some (nearest_double (9 / 10)) \<and>
   value_of (scan_lines [''Creatinine 0.9 mg/dL''] biomarkers_init) ''LDL'' = None \<and>
   (\<exists>m. build_biomarkers_data get_reference_ranges
           (scan_lines [''Creatinine 0.9 mg/dL''] biomarkers_init) Map.empty = Inr m \<and>
        m ''LDL'' = None \<and>
        m ''Creatinine'' =
          Some \<lparr>unit_name = ''mg/dL'', reference_range = ''0.7-1.3'', low = PyFloat (7 / 10),
                high = PyFloat (13 / 10), entry_value = nearest_double (9 / 10)\<rparr>)"
proof -
  let ?S = "scan_lines [''Creatinine 0.9 mg/dL''] biomarkers_init"
  have v: "value_of ?S ''Creatinine'' = Some (nearest_double (9 / 10))" by code_simp
  have n: "value_of ?S ''LDL'' = None" by code_simp
  have r: "map_of get_reference_ranges ''Creatinine'' =
             Some \<lparr>unit_name = ''mg/dL'', reference_range = ''0.7-1.3'',
                   low = PyFloat (7 / 10), high = PyFloat (13 / 10)\<rparr>"
    by (simp add: get_reference_ranges_def)
  from assembled_mapping_exact [of "[''Creatinine 0.9 mg/dL'']"] obtain m where
    m: "build_biomarkers_data get_reference_ranges ?S Map.empty = Inr m"
    and absent: "\<forall>b. value_of ?S b = None \<longrightarrow> m b = None"
    and present: "\<forall>b v. value_of ?S b = Some v \<longrightarrow>
           (\<exists>r. map_of get_reference_ranges b = Some r \<and>
                m b = Some \<lparr>unit_name = unit_name r, reference_range = reference_range r,
                            low = low r, high = high r, entry_value = v\<rparr>)"
    by blast
  from absent n have "m ''LDL'' = None" by blast
  moreover from present v r have "m ''Creatinine'' =
          Some \<lparr>unit_name = ''mg/dL'', reference_range = ''0.7-1.3'', low = PyFloat (7 / 10),
                high = PyFloat (13 / 10), entry_value = nearest_double (9 / 10)\<rparr>"
    by fastforce
  ultimately show ?thesis using v n m by blast
qed

theorem extract_value_never_raises_witness:
  "extract_value_body ''6.1 %'' ''HbA1c'' = Inr (Some (nearest_double (61 / 10))) \<and>
   extract_value ''6.1 %'' ''HbA1c'' = Some (nearest_double (61 / 10))"
proof -
  from extract_value_never_raises [of "''6.1 %''" "''HbA1c''"] obtain r where
    r: "extract_value_body ''6.1 %'' ''HbA1c'' = Inr r" "extract_value ''6.1 %'' ''HbA1c'' = r"
    by blast
  have "extract_value_body ''6.1 %'' ''HbA1c'' = Inr (Some (nearest_double (61 / 10)))" by code_simp
  with r show ?thesis by simp
qed

theorem first_matching_marker_line_witness:
  "extract_patient_info (''NAME'' @ [nl] @ ''NAME: Bob (45Y/M)'' @ [nl] @ ''NAME: Eve'') ''2024-01-01'' =
     Inr \<lparr>name = ''Dr. Bob'', age = Some 45, gender = Some ''M'', date = ''2024-01-01''\<rparr>"
proof -
  let ?text = "''NAME'' @ [nl] @ ''NAME: Bob (45Y/M)'' @ [nl] @ ''NAME: Eve''"
  have s: "py_split_on nl ?text = [''NAME'', ''NAME: Bob (45Y/M)'', ''NAME: Eve'']"
    by code_simp
  have "(case re_search name_pattern ''NAME'' of None \<Rightarrow> True | Some g \<Rightarrow> False)"
    by code_simp
  then have n1: "re_search name_pattern ''NAME'' = None"
    by (cases "re_search name_pattern ''NAME''") simp_all
  have "(case re_search name_pattern ''NAME: Bob (45Y/M)'' of
           None \<Rightarrow> False
         | Some g \<Rightarrow> info_of_match g ''2024-01-01'' =
             Inr \<lparr>name = ''Dr. Bob'', age = Some 45, gender = Some ''M'', date = ''2024-01-01''\<rparr>)"
    by code_simp
  then obtain g where g: "re_search name_pattern ''NAME: Bob (45Y/M)'' = Some g"
    and i: "info_of_match g ''2024-01-01'' =
             Inr \<lparr>name = ''Dr. Bob'', age = Some 45, gender = Some ''M'', date = ''2024-01-01''\<rparr>"
    by (cases "re_search name_pattern ''NAME: Bob (45Y/M)''") simp_all
  have m: "py_in ''NAME'' ''NAME: Bob (45Y/M)''" by code_simp
  from n1 g m have "find (\<lambda>l. py_in ''NAME'' l \<and> re_search name_pattern l \<noteq> None)
      [''NAME'', ''NAME: Bob (45Y/M)'', ''NAME: Eve''] = Some ''NAME: Bob (45Y/M)''"
    by simp
  with first_matching_marker_line [of ?text "''2024-01-01''"] s g i show ?thesis
    by simp
qed

end
